theory Spec2Isabelle
  imports Complex_Main "HOL-Library.Word" "HOL-Library.Log_Nat"
begin

section \<open>Numbers, rasters and pixels\<close>

text \<open>
  The feature extractor works on the \<open>data\<close> array of a canvas \<open>ImageData\<close>: a
  \<open>Uint8ClampedArray\<close> holding four bytes (R, G, B, A) per pixel, row by row.  It is
  modelled as a list of 8-bit words.

  JavaScript numbers are IEEE doubles.  Channel values, coordinates and counters are small
  integers, which doubles hold exactly; they are \<open>int\<close> or \<open>nat\<close> here.  A fraction is
  a rational, and \<open>fl q\<close> below is the double nearest to \<open>q\<close>.

  \<open>countBlackSpots\<close> and \<open>detectCuts\<close> are modelled in double arithmetic: every
  operation of the source that rounds is wrapped in \<open>fl\<close>, and a decimal constant such
  as \<open>0.02\<close> is \<open>fl (2 / 100)\<close>.  The other analyzers and the shelf-life estimator
  compute with exact rationals.  There the comparison of a brightness \<open>(r + g + b) / 3\<close>
  with an integer threshold, and of a quotient of two counters below 2^16 with a decimal
  constant, has the same outcome in doubles and in the rationals, but an accumulated sum,
  a mean or a one-decimal rounding can differ in the last place.  The theorems about those
  functions do not depend on it: they are equalities between two runs, or are evaluated
  at inputs where the two arithmetics give the same values (22 days, 75 mm, NaN,
  299 pixels).

  Where the code can divide by zero the result is a \<open>jsnum\<close>, which adds the two
  infinities and NaN.  Zero is unsigned: the only zero divisor the code can produce is a
  difference of two equal integers, which is +0.
\<close>

type_synonym raster = "8 word list"

datatype jsnum = Fin rat | PInf | NInf | NaN

fun js_add :: "jsnum \<Rightarrow> jsnum \<Rightarrow> jsnum" where
  "js_add (Fin a) (Fin b) = Fin (a + b)"
| "js_add NaN _ = NaN"
| "js_add _ NaN = NaN"
| "js_add PInf NInf = NaN"
| "js_add NInf PInf = NaN"
| "js_add PInf _ = PInf"
| "js_add _ PInf = PInf"
| "js_add NInf _ = NInf"
| "js_add _ NInf = NInf"

fun js_neg :: "jsnum \<Rightarrow> jsnum" where
  "js_neg (Fin a) = Fin (- a)"
| "js_neg PInf = NInf"
| "js_neg NInf = PInf"
| "js_neg NaN = NaN"

definition js_sub :: "jsnum \<Rightarrow> jsnum \<Rightarrow> jsnum" where
  "js_sub a b = js_add a (js_neg b)"

fun js_abs :: "jsnum \<Rightarrow> jsnum" where
  "js_abs (Fin a) = Fin \<bar>a\<bar>"
| "js_abs PInf = PInf"
| "js_abs NInf = PInf"
| "js_abs NaN = NaN"

fun js_mul :: "jsnum \<Rightarrow> jsnum \<Rightarrow> jsnum" where
  "js_mul (Fin a) (Fin b) = Fin (a * b)"
| "js_mul NaN _ = NaN"
| "js_mul _ NaN = NaN"
| "js_mul (Fin a) PInf = (if a = 0 then NaN else if 0 < a then PInf else NInf)"
| "js_mul (Fin a) NInf = (if a = 0 then NaN else if 0 < a then NInf else PInf)"
| "js_mul PInf (Fin b) = (if b = 0 then NaN else if 0 < b then PInf else NInf)"
| "js_mul NInf (Fin b) = (if b = 0 then NaN else if 0 < b then NInf else PInf)"
| "js_mul PInf PInf = PInf"
| "js_mul NInf NInf = PInf"
| "js_mul PInf NInf = NInf"
| "js_mul NInf PInf = NInf"

fun js_div :: "jsnum \<Rightarrow> jsnum \<Rightarrow> jsnum" where
  "js_div (Fin a) (Fin b) =
     (if b \<noteq> 0 then Fin (a / b)
      else if a = 0 then NaN else if 0 < a then PInf else NInf)"
| "js_div NaN _ = NaN"
| "js_div _ NaN = NaN"
| "js_div (Fin a) _ = Fin 0"
| "js_div PInf (Fin b) = (if 0 \<le> b then PInf else NInf)"
| "js_div NInf (Fin b) = (if 0 \<le> b then NInf else PInf)"
| "js_div _ _ = NaN"

text \<open>\<open>Math.round\<close>: the nearest integer, a tie going up.\<close>

definition math_round :: "rat \<Rightarrow> int" where
  "math_round x = \<lfloor>x + 1 / 2\<rfloor>"

fun js_round :: "jsnum \<Rightarrow> jsnum" where
  "js_round (Fin a) = Fin (of_int (math_round a))"
| "js_round v = v"

text \<open>\<open>a < b\<close>: false as soon as one side is NaN.\<close>

fun js_lt :: "jsnum \<Rightarrow> jsnum \<Rightarrow> bool" where
  "js_lt (Fin a) (Fin b) = (a < b)"
| "js_lt NaN _ = False"
| "js_lt _ NaN = False"
| "js_lt NInf NInf = False"
| "js_lt NInf _ = True"
| "js_lt PInf _ = False"
| "js_lt (Fin a) PInf = True"
| "js_lt (Fin a) NInf = False"

text \<open>
  Rounding to double precision: the nearest number with a 53-bit significand, a tie going
  to the even significand.  \<open>ilog2 q\<close> is the exponent \<open>e\<close> with
  \<open>2^e \<le> q < 2^(e + 1)\<close> for a positive \<open>q\<close>.  The exponent is not bounded: the
  numbers rounded below are quotients, products and differences of counters up to 50176,
  of channel sums and of constants between 0.02 and 150, far from overflow and from the
  subnormal range.
\<close>

definition ilog2 :: "rat \<Rightarrow> int" where
  "ilog2 q = (if q \<ge> 1 then bitlen \<lfloor>q\<rfloor> - 1 else - bitlen (\<lceil>1 / q\<rceil> - 1))"

definition round_half_even :: "rat \<Rightarrow> int" where
  "round_half_even m =
     (let r = \<lfloor>m\<rfloor>; d = m - of_int r
      in if d < 1 / 2 then r else if d > 1 / 2 then r + 1 else if even r then r else r + 1)"

definition fl :: "rat \<Rightarrow> rat" where
  "fl q =
     (if q = 0 then 0
      else let u = 2 powi (ilog2 \<bar>q\<bar> - 52)
           in sgn q * of_int (round_half_even (\<bar>q\<bar> / u)) * u)"

text \<open>
  Reading the three colour channels of the pixel that starts at index \<open>i\<close>.  A typed
  array read past its end gives \<open>undefined\<close>; \<open>None\<close> stands for a pixel with an
  undefined channel.  Every arithmetic expression on such a pixel is NaN and every
  comparison false, which is what each caller below does with \<open>None\<close>.
\<close>

definition px :: "raster \<Rightarrow> nat \<Rightarrow> (int \<times> int \<times> int) option" where
  "px data i =
     (if i + 2 < length data
      then Some (uint (data ! i), uint (data ! (i + 1)), uint (data ! (i + 2)))
      else None)"

definition brightness :: "int \<Rightarrow> int \<Rightarrow> int \<Rightarrow> rat" where
  "brightness r g b = of_int (r + g + b) / 3"

definition saturation :: "int \<Rightarrow> int \<Rightarrow> int \<Rightarrow> rat" where
  "saturation r g b =
     (let maxColor = max (max r g) b; minColor = min (min r g) b
      in if maxColor = 0 then 0 else of_int (maxColor - minColor) / of_int maxColor)"

text \<open>The loop \<open>for (let i = 0; i < n; i += 4)\<close> visits these indices, in this order.\<close>

definition step4 :: "nat \<Rightarrow> nat list" where
  "step4 n = map (\<lambda>k. 4 * k) [0..<(n + 3) div 4]"

section \<open>The pixel classifier\<close>

definition isOnionPixel :: "int \<Rightarrow> int \<Rightarrow> int \<Rightarrow> bool \<Rightarrow> bool" where
  "isOnionPixel r g b allowDark =
     (if allowDark \<and> brightness r g b < 80 \<and> brightness r g b > 10
         \<and> (r \<ge> g \<and> r \<ge> b \<and> r < 120) then True
      else if r \<ge> 80 \<and> r \<le> 230 \<and> g \<ge> 50 \<and> g \<le> 200 \<and> b \<ge> 20 \<and> b \<le> 130 \<and> r > b + 20
        then True
      else if r \<ge> 170 \<and> g \<ge> 170 \<and> b \<ge> 170 \<and> r \<le> 255 \<and> g \<le> 255 \<and> b \<le> 255 then True
      else if r \<ge> 80 \<and> r \<le> 180 \<and> b \<ge> 70 \<and> b \<le> 170 \<and> r > g - 10 \<and> b > g - 30 then True
      else False)"

text \<open>
  Every analyzer calls \<open>isOnionPixel(r, g, b)\<close>, leaving \<open>allowDark\<close> at its default
  \<open>false\<close>; on a pixel with an undefined channel all three colour rules are false.
\<close>

definition subject :: "raster \<Rightarrow> nat \<Rightarrow> bool" where
  "subject data i =
     (case px data i of None \<Rightarrow> False | Some (r, g, b) \<Rightarrow> isOnionPixel r g b False)"

section \<open>The feature record and the shelf-life estimator\<close>

record dimensions =
  length_mm :: jsnum
  width_mm :: jsnum
  height_mm :: jsnum
  diameter_mm :: jsnum
  size_class :: string

record color_stats =
  avg_brightness :: rat
  avg_saturation :: rat

record features =
  dims :: dimensions
  black_spots_count :: int
  surface_texture_score :: int
  skin_condition_score :: int
  has_bruises :: nat
  has_cuts :: nat
  has_lesions :: nat
  color_analysis :: color_stats
  sprouting_detected :: rat
  visible_damage_flag :: nat

definition calculateShelfLife :: "features \<Rightarrow> int" where
  "calculateShelfLife f =
     (let baseShelfLife = (30 :: rat);
          shelfLife = baseShelfLife;
          shelfLife = shelfLife - of_int (black_spots_count f) * (8 / 10);
          shelfLife = shelfLife - of_int (surface_texture_score f - 1) * 3;
          shelfLife = shelfLife - of_int (skin_condition_score f - 1) * 4;
          shelfLife = shelfLife - of_nat (visible_damage_flag f) * 8;
          shelfLife = (if sprouting_detected f > 5 / 100 then shelfLife - 10
                       else if sprouting_detected f > 2 / 100 then shelfLife - 5
                       else shelfLife)
      in max 0 (min 37 (math_round shelfLife)))"

definition getQualityGrade :: "int \<Rightarrow> string" where
  "getQualityGrade shelfLife =
     (if shelfLife > 25 then ''A''
      else if shelfLife > 18 then ''B''
      else if shelfLife > 10 then ''C''
      else ''D'')"

section \<open>The analyzers\<close>

text \<open>
  A \<open>for\<close> loop whose body does not touch the loop variable is a \<open>fold\<close> of the body
  over the indices it visits; \<open>continue\<close> leaves the accumulators as they are.  The two
  nested loops over \<open>y\<close> and \<open>x\<close> are a fold of a fold.
\<close>

definition for_yx :: "nat \<Rightarrow> nat \<Rightarrow> nat \<Rightarrow> nat \<Rightarrow> (nat \<Rightarrow> nat \<Rightarrow> 's \<Rightarrow> 's) \<Rightarrow> 's \<Rightarrow> 's" where
  "for_yx y0 y1 x0 x1 body s = fold (\<lambda>y. fold (body y) [x0..<x1]) [y0..<y1] s"

subsection \<open>estimateDimensions, classifySize\<close>

type_synonym bbox = "int \<times> int \<times> int \<times> int \<times> nat"

definition estimateDimensions_body :: "raster \<Rightarrow> nat \<Rightarrow> nat \<Rightarrow> nat \<Rightarrow> bbox \<Rightarrow> bbox" where
  "estimateDimensions_body data width y x =
     (\<lambda>(minX, maxX, minY, maxY, onionPixels).
        case px data ((y * width + x) * 4) of
          None \<Rightarrow> (minX, maxX, minY, maxY, onionPixels)
        | Some (r, g, b) \<Rightarrow>
            if isOnionPixel r g b False
            then (min minX (int x), max maxX (int x), min minY (int y), max maxY (int y),
                  onionPixels + 1)
            else (minX, maxX, minY, maxY, onionPixels))"

definition classifySize :: "jsnum \<Rightarrow> string" where
  "classifySize diameter =
     (if js_lt diameter (Fin 50) then ''Small''
      else if js_lt diameter (Fin 75) then ''Medium''
      else if js_lt diameter (Fin 100) then ''Large''
      else ''Extra Large'')"

definition estimateDimensions :: "raster \<Rightarrow> nat \<Rightarrow> nat \<Rightarrow> dimensions" where
  "estimateDimensions data width height =
     (case for_yx 0 height 0 width (estimateDimensions_body data width)
             (int width, 0, int height, 0, 0) of
        (minX, maxX, minY, maxY, onionPixels) \<Rightarrow>
          let pixelWidth = maxX - minX;
              pixelHeight = maxY - minY;
              scaleFactor = js_div (Fin 75) (Fin (of_int (max pixelWidth pixelHeight)))
          in \<lparr> length_mm =
                 js_div (js_round (js_mul (js_mul (Fin (of_int pixelHeight)) scaleFactor) (Fin 10)))
                   (Fin 10),
               width_mm =
                 js_div (js_round (js_mul (js_mul (Fin (of_int pixelWidth)) scaleFactor) (Fin 10)))
                   (Fin 10),
               height_mm =
                 js_div (js_round (js_mul (js_mul (Fin (of_int pixelWidth)) scaleFactor) (Fin 10)))
                   (Fin 10),
               diameter_mm =
                 js_div (js_round (js_mul (js_mul (Fin (of_int (max pixelWidth pixelHeight)))
                    scaleFactor) (Fin 10))) (Fin 10),
               size_class =
                 classifySize (js_mul (Fin (of_int (max pixelWidth pixelHeight))) scaleFactor) \<rparr>)"

subsection \<open>countBlackSpots\<close>

definition countBlackSpots_body :: "raster \<Rightarrow> nat \<Rightarrow> nat \<times> nat \<Rightarrow> nat \<times> nat" where
  "countBlackSpots_body data i =
     (\<lambda>(darkSpotPixels, onionPixels).
        case px data i of
          None \<Rightarrow> (darkSpotPixels, onionPixels)
        | Some (r, g, b) \<Rightarrow>
            if isOnionPixel r g b False
            then (if fl (brightness r g b) < 80 \<and> fl (brightness r g b) > 20
                  then darkSpotPixels + 1 else darkSpotPixels,
                  onionPixels + 1)
            else (darkSpotPixels, onionPixels))"

definition countBlackSpots :: "raster \<Rightarrow> int" where
  "countBlackSpots data =
     (case fold (countBlackSpots_body data) (step4 (length data)) (0, 0) of
        (darkSpotPixels, onionPixels) \<Rightarrow>
          if onionPixels = 0 then 0
          else
            let darkRatio = fl (of_nat darkSpotPixels / of_nat onionPixels);
                spotCount =
                  (if darkRatio < fl (2 / 100) then \<lfloor>fl (darkRatio * 100)\<rfloor>
                   else if darkRatio < fl (8 / 100)
                     then 2 + \<lfloor>fl (fl (darkRatio - fl (2 / 100)) * 100)\<rfloor>
                   else 8 + \<lfloor>fl (fl (darkRatio - fl (8 / 100)) * 150)\<rfloor>)
            in min 21 (max 0 spotCount))"

subsection \<open>floodFill\<close>

text \<open>
  The stack is a list whose head is the top.  The \<open>visited\<close> set is keyed by the string
  \<open>x,y\<close>, which determines the pair; the caller's set is updated in place, so the model
  returns it beside the count.  A pixel whose brightness is NaN is not \<open>>= 60\<close> and
  joins the region.
\<close>

definition in_grid :: "int \<Rightarrow> int \<Rightarrow> (int \<times> int) set" where
  "in_grid width height = {0..<width} \<times> {0..<height}"

function floodFill_loop ::
  "raster \<Rightarrow> int \<Rightarrow> int \<Rightarrow> (int \<times> int) list \<Rightarrow> (int \<times> int) set \<Rightarrow> nat
     \<Rightarrow> nat \<times> (int \<times> int) set" where
  "floodFill_loop data width height [] visited count = (count, visited)"
| "floodFill_loop data width height ((x, y) # stack) visited count =
     (if (x, y) \<in> visited \<or> x < 0 \<or> x \<ge> width \<or> y < 0 \<or> y \<ge> height
      then floodFill_loop data width height stack visited count
      else if (case px data (nat ((y * width + x) * 4)) of
                 None \<Rightarrow> False
               | Some (r, g, b) \<Rightarrow> brightness r g b \<ge> 60)
      then floodFill_loop data width height stack visited count
      else if count + 1 < 100
      then floodFill_loop data width height
             ((x, y - 1) # (x, y + 1) # (x - 1, y) # (x + 1, y) # stack)
             (insert (x, y) visited) (count + 1)
      else floodFill_loop data width height stack (insert (x, y) visited) (count + 1))"
  by pat_completeness auto
termination
proof (relation "measure (\<lambda>(data, width, height, stack, visited, count).
                   5 * card (in_grid width height - visited) + length stack)")
  show "wf (measure (\<lambda>(data, width, height, stack, visited, count).
                   5 * card (in_grid width height - visited) + length stack))"
    by simp
next
  fix data :: raster and width height x y :: int and stack visited and count :: nat
  assume "\<not> ((x, y) \<in> visited \<or> x < 0 \<or> x \<ge> width \<or> y < 0 \<or> y \<ge> height)"
  then have mem: "(x, y) \<in> in_grid width height - visited"
    by (simp add: in_grid_def)
  have fin: "finite (in_grid width height - visited)"
    by (simp add: in_grid_def)
  have eq: "in_grid width height - insert (x, y) visited
              = (in_grid width height - visited) - {(x, y)}"
    by auto
  have less: "card (in_grid width height - insert (x, y) visited)
                < card (in_grid width height - visited)"
    unfolding eq by (rule card_Diff1_less [OF fin mem])
  show "((data, width, height, (x, y - 1) # (x, y + 1) # (x - 1, y) # (x + 1, y) # stack,
           insert (x, y) visited, count + 1),
          (data, width, height, (x, y) # stack, visited, count))
        \<in> measure (\<lambda>(data, width, height, stack, visited, count).
                   5 * card (in_grid width height - visited) + length stack)"
    using less by simp
  show "((data, width, height, stack, insert (x, y) visited, count + 1),
          (data, width, height, (x, y) # stack, visited, count))
        \<in> measure (\<lambda>(data, width, height, stack, visited, count).
                   5 * card (in_grid width height - visited) + length stack)"
    using less by simp
qed simp_all

definition floodFill ::
  "raster \<Rightarrow> int \<Rightarrow> int \<Rightarrow> int \<Rightarrow> int \<Rightarrow> (int \<times> int) set \<Rightarrow> nat \<times> (int \<times> int) set" where
  "floodFill data startX startY width height visited =
     floodFill_loop data width height [(startX, startY)] visited 0"

subsection \<open>analyzeSurfaceTexture\<close>

definition brightness_at :: "raster \<Rightarrow> nat \<Rightarrow> jsnum" where
  "brightness_at data i =
     (case px data i of None \<Rightarrow> NaN | Some (r, g, b) \<Rightarrow> Fin (brightness r g b))"

text \<open>The loops start at 1, so \<open>x - 1\<close> and \<open>y - 1\<close> never go below zero.\<close>

definition analyzeSurfaceTexture_body :: "raster \<Rightarrow> nat \<Rightarrow> nat \<Rightarrow> jsnum \<times> nat \<Rightarrow> jsnum \<times> nat" where
  "analyzeSurfaceTexture_body data y x =
     (\<lambda>(totalVariance, samples).
        case px data ((y * 224 + x) * 4) of
          None \<Rightarrow> (totalVariance, samples)
        | Some (r, g, b) \<Rightarrow>
            if \<not> isOnionPixel r g b False then (totalVariance, samples)
            else
              let centerBrightness = Fin (brightness r g b);
                  neighbors = [(x - 1, y), (x + 1, y), (x, y - 1), (x, y + 1)]
              in case fold (\<lambda>(nx, ny) (neighborSum, neighborCount).
                              (js_add neighborSum
                                 (js_abs (js_sub centerBrightness
                                    (brightness_at data ((ny * 224 + nx) * 4)))),
                               neighborCount + 1))
                        neighbors (Fin 0, 0 :: nat) of
                   (neighborSum, neighborCount) \<Rightarrow>
                     if neighborCount > 0
                     then (js_add totalVariance (js_div neighborSum (Fin (of_nat neighborCount))),
                           samples + 1)
                     else (totalVariance, samples))"

definition analyzeSurfaceTexture :: "raster \<Rightarrow> int" where
  "analyzeSurfaceTexture data =
     (case for_yx 1 (224 - 1) 1 (224 - 1) (analyzeSurfaceTexture_body data) (Fin 0, 0) of
        (totalVariance, samples) \<Rightarrow>
          let avgVariance =
                (if samples > 0 then js_div totalVariance (Fin (of_nat samples)) else Fin 0)
          in if js_lt avgVariance (Fin 10) then 1
             else if js_lt avgVariance (Fin 20) then 2
             else if js_lt avgVariance (Fin 35) then 3
             else 4)"

subsection \<open>analyzeSkinCondition\<close>

type_synonym skin_acc = "rat \<times> rat \<times> nat \<times> nat \<times> nat"

definition analyzeSkinCondition_body :: "raster \<Rightarrow> nat \<Rightarrow> skin_acc \<Rightarrow> skin_acc" where
  "analyzeSkinCondition_body data i =
     (\<lambda>(totalBrightness, totalSaturation, goodSkinPixels, poorSkinPixels, samples).
        case px data i of
          None \<Rightarrow> (totalBrightness, totalSaturation, goodSkinPixels, poorSkinPixels, samples)
        | Some (r, g, b) \<Rightarrow>
            if \<not> isOnionPixel r g b False
            then (totalBrightness, totalSaturation, goodSkinPixels, poorSkinPixels, samples)
            else
              (totalBrightness + brightness r g b,
               totalSaturation + saturation r g b,
               (if brightness r g b > 120 \<and> saturation r g b > 25 / 100 \<and> r > g \<and> g > b
                then goodSkinPixels + 1 else goodSkinPixels),
               (if brightness r g b < 80 \<or> saturation r g b < 15 / 100
                then poorSkinPixels + 1 else poorSkinPixels),
               samples + 1))"

definition analyzeSkinCondition :: "raster \<Rightarrow> int" where
  "analyzeSkinCondition data =
     (case fold (analyzeSkinCondition_body data) (step4 (length data)) (0, 0, 0, 0, 0) of
        (totalBrightness, totalSaturation, goodSkinPixels, poorSkinPixels, samples) \<Rightarrow>
          if samples = 0 then 3
          else
            let avgBrightness = totalBrightness / of_nat samples;
                avgSaturation = totalSaturation / of_nat samples;
                goodRatio = (of_nat goodSkinPixels :: rat) / of_nat samples;
                poorRatio = (of_nat poorSkinPixels :: rat) / of_nat samples
            in if goodRatio > 4 / 10 \<and> avgBrightness > 130 \<and> avgSaturation > 30 / 100 then 1
               else if goodRatio > 25 / 100 \<and> avgBrightness > 110 \<and> avgSaturation > 25 / 100
                 then 2
               else if poorRatio < 3 / 10 \<and> avgBrightness > 90 then 3
               else if poorRatio < 5 / 10 \<or> avgBrightness > 70 then 4
               else 5)"

subsection \<open>detectBruises, detectCuts, detectLesions\<close>

definition detectBruises_body :: "raster \<Rightarrow> nat \<Rightarrow> nat \<times> nat \<Rightarrow> nat \<times> nat" where
  "detectBruises_body data i =
     (\<lambda>(bruisedPixels, onionPixels).
        case px data i of
          None \<Rightarrow> (bruisedPixels, onionPixels)
        | Some (r, g, b) \<Rightarrow>
            if \<not> isOnionPixel r g b False then (bruisedPixels, onionPixels)
            else (if brightness r g b \<ge> 40 \<and> brightness r g b < 100 \<and> r \<ge> g \<and> r \<ge> b
                  then bruisedPixels + 1 else bruisedPixels,
                  onionPixels + 1))"

definition detectBruises :: "raster \<Rightarrow> nat" where
  "detectBruises data =
     (case fold (detectBruises_body data) (step4 (length data)) (0, 0) of
        (bruisedPixels, onionPixels) \<Rightarrow>
          if onionPixels = 0 then 0
          else
            let bruiseRatio = (of_nat bruisedPixels :: rat) / of_nat onionPixels
            in if bruiseRatio > 5 / 100 then 1 else 0)"

definition detectCuts_body :: "raster \<Rightarrow> nat \<Rightarrow> nat \<Rightarrow> nat \<times> nat \<Rightarrow> nat \<times> nat" where
  "detectCuts_body data y x =
     (\<lambda>(sharpEdgeCount, totalEdgeChecks).
        case px data ((y * 224 + x) * 4) of
          None \<Rightarrow> (sharpEdgeCount, totalEdgeChecks)
        | Some (r, g, b) \<Rightarrow>
            if \<not> isOnionPixel r g b False then (sharpEdgeCount, totalEdgeChecks)
            else
              (case px data ((y * 224 + (x + 1)) * 4) of
                 None \<Rightarrow> (sharpEdgeCount, totalEdgeChecks)
               | Some (rr, rg, rb) \<Rightarrow>
                   if \<not> isOnionPixel rr rg rb False then (sharpEdgeCount, totalEdgeChecks)
                   else (if \<bar>fl (fl (brightness r g b) - fl (brightness rr rg rb))\<bar> > 60
                         then sharpEdgeCount + 1 else sharpEdgeCount,
                         totalEdgeChecks + 1)))"

definition detectCuts :: "raster \<Rightarrow> nat" where
  "detectCuts data =
     (case for_yx 1 (224 - 1) 1 (224 - 1) (detectCuts_body data) (0, 0) of
        (sharpEdgeCount, totalEdgeChecks) \<Rightarrow>
          if totalEdgeChecks = 0 then 0
          else
            let sharpEdgeRatio = fl (of_nat sharpEdgeCount / of_nat totalEdgeChecks)
            in if sharpEdgeRatio > fl (3 / 100) then 1 else 0)"

definition detectLesions_body :: "raster \<Rightarrow> nat \<Rightarrow> nat \<times> nat \<Rightarrow> nat \<times> nat" where
  "detectLesions_body data i =
     (\<lambda>(lesionPixels, onionPixels).
        case px data i of
          None \<Rightarrow> (lesionPixels, onionPixels)
        | Some (r, g, b) \<Rightarrow>
            if \<not> isOnionPixel r g b False then (lesionPixels, onionPixels)
            else (if brightness r g b < 70 \<and> saturation r g b < 25 / 100
                  then lesionPixels + 1 else lesionPixels,
                  onionPixels + 1))"

definition detectLesions :: "raster \<Rightarrow> nat" where
  "detectLesions data =
     (case fold (detectLesions_body data) (step4 (length data)) (0, 0) of
        (lesionPixels, onionPixels) \<Rightarrow>
          if onionPixels = 0 then 0
          else
            let lesionRatio = (of_nat lesionPixels :: rat) / of_nat onionPixels
            in if lesionRatio > 6 / 100 then 1 else 0)"

subsection \<open>detectSprouting, analyzeColor\<close>

definition detectSprouting_body :: "raster \<Rightarrow> nat \<Rightarrow> nat \<times> nat \<Rightarrow> nat \<times> nat" where
  "detectSprouting_body data i =
     (\<lambda>(greenPixels, totalPixels).
        ((case px data i of
            None \<Rightarrow> greenPixels
          | Some (r, g, b) \<Rightarrow>
              if g > r + 35 \<and> g > b + 35 \<and> g \<ge> 100 then greenPixels + 1 else greenPixels),
         totalPixels + 1))"

definition detectSprouting :: "raster \<Rightarrow> rat" where
  "detectSprouting data =
     (case fold (detectSprouting_body data) (step4 (length data)) (0, 0) of
        (greenPixels, totalPixels) \<Rightarrow>
          if totalPixels > 0 then of_nat greenPixels / of_nat totalPixels else 0)"

definition analyzeColor_body :: "raster \<Rightarrow> nat \<Rightarrow> rat \<times> rat \<times> nat \<Rightarrow> rat \<times> rat \<times> nat" where
  "analyzeColor_body data i =
     (\<lambda>(totalBrightness, totalSaturation, samples).
        case px data i of
          None \<Rightarrow> (totalBrightness, totalSaturation, samples)
        | Some (r, g, b) \<Rightarrow>
            if \<not> isOnionPixel r g b False then (totalBrightness, totalSaturation, samples)
            else (totalBrightness + brightness r g b, totalSaturation + saturation r g b,
                  samples + 1))"

definition analyzeColor :: "raster \<Rightarrow> color_stats" where
  "analyzeColor data =
     (case fold (analyzeColor_body data) (step4 (length data)) (0, 0, 0) of
        (totalBrightness, totalSaturation, samples) \<Rightarrow>
          \<lparr> avg_brightness = (if samples > 0 then totalBrightness / of_nat samples else 0),
            avg_saturation = (if samples > 0 then totalSaturation / of_nat samples else 0) \<rparr>)"

subsection \<open>extractFeatures\<close>

text \<open>
  The extractor object has one field, \<open>this.features\<close>: the empty object after
  construction (\<open>None\<close>), the last record after a call.  \<open>extractFeatures\<close> draws its
  argument on a 224 by 224 canvas and reads the pixels back; the model starts from that
  \<open>data\<close> array.  It returns the record and the updated object.
\<close>

record extractor =
  this_features :: "features option"

definition constructor :: extractor where
  "constructor = \<lparr> this_features = None \<rparr>"

definition extractFeatures :: "extractor \<Rightarrow> raster \<Rightarrow> features \<times> extractor" where
  "extractFeatures this data =
     (let dimensions = estimateDimensions data 224 224;
          black_spots_count = countBlackSpots data;
          surface_texture_score = analyzeSurfaceTexture data;
          skin_condition_score = analyzeSkinCondition data;
          has_bruises = detectBruises data;
          has_cuts = detectCuts data;
          has_lesions = detectLesions data;
          color_analysis = analyzeColor data;
          sprouting_detected = detectSprouting data;
          features =
            \<lparr> dims = dimensions,
              black_spots_count = black_spots_count,
              surface_texture_score = surface_texture_score,
              skin_condition_score = skin_condition_score,
              has_bruises = has_bruises,
              has_cuts = has_cuts,
              has_lesions = has_lesions,
              color_analysis = color_analysis,
              sprouting_detected = sprouting_detected,
              visible_damage_flag =
                (if has_bruises \<noteq> 0 \<or> has_cuts \<noteq> 0 \<or> has_lesions \<noteq> 0 then 1 else 0) \<rparr>
      in (features, this\<lparr> this_features := Some features \<rparr>))"

section \<open>Reference formulas and sample inputs\<close>

text \<open>
  The formulas of the specification, written from its words, and the concrete inputs at
  which the theorems below are evaluated.
\<close>

subsection \<open>Shelf life\<close>

definition spec_sprouting_penalty :: "rat \<Rightarrow> rat" where
  "spec_sprouting_penalty s = (if s > 5 / 100 then 10 else if s > 2 / 100 then 5 else 0)"

definition spec_days :: "features \<Rightarrow> int" where
  "spec_days f =
     max 0 (min 37 (round
       (30 - of_int (black_spots_count f) * (8 / 10)
           - of_int (surface_texture_score f - 1) * 3
           - of_int (skin_condition_score f - 1) * 4
           - (if visible_damage_flag f \<noteq> 0 then 8 else 0)
           - spec_sprouting_penalty (sprouting_detected f))))"

definition sample_features :: features where
  "sample_features =
     \<lparr> dims = \<lparr> length_mm = Fin 60, width_mm = Fin 75, height_mm = Fin 75, diameter_mm = Fin 75,
                size_class = ''Large'' \<rparr>,
       black_spots_count = 3, surface_texture_score = 2, skin_condition_score = 2,
       has_bruises = 1, has_cuts = 0, has_lesions = 0,
       color_analysis = \<lparr> avg_brightness = 110, avg_saturation = 6 / 10 \<rparr>,
       sprouting_detected = 3 / 100, visible_damage_flag = 1 \<rparr>"

subsection \<open>Subject pixels and sample rasters\<close>

text \<open>The subject pixels of a raster, by the index of their red channel.\<close>

definition subject_pixels :: "raster \<Rightarrow> nat list" where
  "subject_pixels data = filter (subject data) (step4 (length data))"

text \<open>The all-black 224 by 224 raster: every byte is zero.\<close>

definition black_raster :: raster where
  "black_raster = replicate (224 * 224 * 4) 0"

text \<open>One white pixel in the top left corner of the black raster.\<close>

definition one_pixel_raster :: raster where
  "one_pixel_raster = [255, 255, 255, 255] @ replicate (224 * 224 * 4 - 4) 0"

text \<open>The green-dominance rule of the sprout detector, on the pixel at index \<open>i\<close>.\<close>

definition green_pixel :: "raster \<Rightarrow> nat \<Rightarrow> bool" where
  "green_pixel data i =
     (case px data i of
        None \<Rightarrow> False
      | Some (r, g, b) \<Rightarrow> g > r + 35 \<and> g > b + 35 \<and> g \<ge> 100)"

text \<open>The record the extractor returns for the all-black raster.\<close>

definition black_features :: features where
  "black_features =
     \<lparr> dims = \<lparr> length_mm = Fin 75, width_mm = Fin 75, height_mm = Fin 75,
                diameter_mm = Fin 75, size_class = ''Large'' \<rparr>,
       black_spots_count = 0, surface_texture_score = 1, skin_condition_score = 3,
       has_bruises = 0, has_cuts = 0, has_lesions = 0,
       color_analysis = \<lparr> avg_brightness = 0, avg_saturation = 0 \<rparr>,
       sprouting_detected = 0, visible_damage_flag = 0 \<rparr>"

subsection \<open>The raster as the specification reads it\<close>

text \<open>
  The three colour rules of the pixel classifier, and the brightness of a pixel: the
  mean of its three channels, a double.
\<close>

definition spec_is_subject :: "int \<times> int \<times> int \<Rightarrow> bool" where
  "spec_is_subject =
     (\<lambda>(r, g, b).
        (80 \<le> r \<and> r \<le> 230 \<and> 50 \<le> g \<and> g \<le> 200 \<and> 20 \<le> b \<and> b \<le> 130 \<and> r > b + 20)
        \<or> (r \<ge> 170 \<and> g \<ge> 170 \<and> b \<ge> 170)
        \<or> (80 \<le> r \<and> r \<le> 180 \<and> 70 \<le> b \<and> b \<le> 170 \<and> r > g - 10 \<and> b > g - 30))"

definition spec_brightness :: "int \<times> int \<times> int \<Rightarrow> rat" where
  "spec_brightness = (\<lambda>(r, g, b). fl (of_int (r + g + b) / 3))"


definition spec_pixel_at :: "raster \<Rightarrow> nat \<Rightarrow> nat \<Rightarrow> int \<times> int \<times> int" where
  "spec_pixel_at data y x =
     (uint (data ! (4 * (224 * y + x))), uint (data ! (4 * (224 * y + x) + 1)),
      uint (data ! (4 * (224 * y + x) + 2)))"

subsection \<open>Black spots\<close>





subsection \<open>Cuts\<close>

text \<open>
  A pixel is named by its row and column.  A pair is a subject pixel whose right-hand
  neighbour is a subject pixel too; it is sharp when the two brightnesses, subtracted as
  doubles, differ by more than 60.  \<open>spec_has_cuts coords\<close> is the rule of the
  specification with the pixels \<open>coords\<close> examined: some pair exists and more than
  3 percent of the pairs are sharp.
\<close>

definition spec_cut_pair :: "raster \<Rightarrow> nat \<times> nat \<Rightarrow> bool" where
  "spec_cut_pair data =
     (\<lambda>(y, x). spec_is_subject (spec_pixel_at data y x)
               \<and> spec_is_subject (spec_pixel_at data y (x + 1)))"

definition spec_sharp_pair :: "raster \<Rightarrow> nat \<times> nat \<Rightarrow> bool" where
  "spec_sharp_pair data =
     (\<lambda>(y, x). \<bar>fl (spec_brightness (spec_pixel_at data y x)
                     - spec_brightness (spec_pixel_at data y (x + 1)))\<bar> > 60)"

definition spec_has_cuts :: "(nat \<times> nat) list \<Rightarrow> raster \<Rightarrow> bool" where
  "spec_has_cuts coords data =
     (filter (spec_cut_pair data) coords \<noteq> []
      \<and> fl (of_nat (length (filter (spec_sharp_pair data) (filter (spec_cut_pair data) coords)))
              / of_nat (length (filter (spec_cut_pair data) coords))) > fl (3 / 100))"

text \<open>Every pixel that has a right-hand neighbour in its row, and the interior pixels.\<close>

definition pixels_with_right_neighbour :: "(nat \<times> nat) list" where
  "pixels_with_right_neighbour = List.product [0..<224] [0..<224 - 1]"

definition interior_pixels :: "(nat \<times> nat) list" where
  "interior_pixels = List.product [1..<224 - 1] [1..<224 - 1]"

text \<open>
  A black raster whose top row starts with a white pixel followed by a dark golden one
  (80, 50, 20): both are subject pixels and their brightnesses are 255 and 50.
\<close>

definition cuts_raster :: raster where
  "cuts_raster = [255, 255, 255, 255, 80, 50, 20, 255] @ replicate (224 * 224 * 4 - 8) 0"

text \<open>
  A black raster with two purple pixels side by side in the interior, at row 1, columns
  1 and 2: (80, 0, 75) and (80, 85, 170).  Their brightnesses 155/3 and 335/3 are exactly
  60 apart; the doubles differ by 60.00000000000001.
\<close>

definition edge_raster :: raster where
  "edge_raster =
     replicate 900 0 @ [80, 0, 75, 255, 80, 85, 170, 255] @ replicate (224 * 224 * 4 - 908) 0"

subsection \<open>Rasters that differ in the alpha channel only\<close>

text \<open>
  Two rasters of the same length that hold the same byte at every index that is not an
  alpha index (the indices 3, 7, 11, ...).
\<close>

definition same_rgb :: "raster \<Rightarrow> raster \<Rightarrow> bool" where
  "same_rgb d1 d2 =
     (length d1 = length d2
      \<and> list_all (\<lambda>i. i mod 4 = 3 \<or> d1 ! i = d2 ! i) [0..<length d1])"

subsection \<open>Flood fill\<close>

text \<open>The pixels that may join a region: those the test \<open>brightness >= 60\<close> lets through.\<close>

definition region_pixel :: "raster \<Rightarrow> int \<Rightarrow> int \<times> int \<Rightarrow> bool" where
  "region_pixel data width =
     (\<lambda>(x, y). case px data (nat ((y * width + x) * 4)) of
                 None \<Rightarrow> True
               | Some (r, g, b) \<Rightarrow> brightness r g b < 60)"

section \<open>Auxiliary lemmas\<close>

lemma floor_rat_numeral [simp]:
  "\<lfloor>numeral a / numeral b :: rat\<rfloor> = numeral a div numeral b"
  by (metis floor_divide_of_int_eq of_int_numeral)

section \<open>The shelf-life estimator and the grade\<close>

text \<open>
  C3.  For every feature record whose damage flag is 0 or 1 (the two values
  \<open>extractFeatures\<close> stores), \<open>calculateShelfLife\<close> returns
  \<open>30 - black_spots_count * 0.8 - (surface_texture_score - 1) * 3
   - (skin_condition_score - 1) * 4 - (8 if the flag is set) - p\<close>, rounded to the nearest
  integer and clamped to 0..37, where \<open>p\<close> is 10 if \<open>sprouting_detected > 0.05\<close>, else
  5 if \<open>sprouting_detected > 0.02\<close>, else 0.
\<close>

theorem calculateShelfLife_formula:
  assumes "visible_damage_flag f \<le> 1"
  shows "calculateShelfLife f = spec_days f"
proof -
  have flag: "(of_nat (visible_damage_flag f) :: rat) * 8
                = (if visible_damage_flag f \<noteq> 0 then 8 else 0)"
    using assms by (cases "visible_damage_flag f = 0") auto
  have pen: "(if sprouting_detected f > 5 / 100 then x - 10
              else if sprouting_detected f > 2 / 100 then x - 5 else x)
             = x - spec_sprouting_penalty (sprouting_detected f)" for x :: rat
    by (simp add: spec_sprouting_penalty_def)
  show ?thesis
    unfolding calculateShelfLife_def spec_days_def Let_def math_round_def round_def pen flag
    by (rule refl)
qed

lemma sample_days: "spec_days sample_features = 8"
  by (simp add: spec_days_def sample_features_def spec_sprouting_penalty_def round_def)

theorem calculateShelfLife_formula_witness:
  "visible_damage_flag sample_features \<le> 1 \<and> calculateShelfLife sample_features = 8"
proof -
  have h: "visible_damage_flag sample_features \<le> 1"
    by (simp add: sample_features_def)
  from calculateShelfLife_formula [OF h] sample_days h show ?thesis by simp
qed

text \<open>
  C4.  The grade is a step function of the integer day count with four disjoint bands:
  A exactly above 25, B exactly in 19..25, C exactly in 11..18, D exactly up to 10; and
  the day count is a function of the record alone, so deriving it again from the same
  record gives the same value.
\<close>

theorem getQualityGrade_bands:
  "(getQualityGrade d = ''A'' \<longleftrightarrow> d > 25)
   \<and> (getQualityGrade d = ''B'' \<longleftrightarrow> 18 < d \<and> d \<le> 25)
   \<and> (getQualityGrade d = ''C'' \<longleftrightarrow> 10 < d \<and> d \<le> 18)
   \<and> (getQualityGrade d = ''D'' \<longleftrightarrow> d \<le> 10)
   \<and> (f = g \<longrightarrow> calculateShelfLife f = calculateShelfLife g)"
  by (simp add: getQualityGrade_def)

theorem getQualityGrade_bands_witness:
  "getQualityGrade 8 = ''D'' \<and> getQualityGrade 30 = ''A''
   \<and> calculateShelfLife sample_features = calculateShelfLife sample_features"
  using getQualityGrade_bands [of 8 sample_features sample_features]
    getQualityGrade_bands [of 30 sample_features sample_features]
  by simp

section \<open>Loops that leave their accumulators alone\<close>

lemma fold_skip: "(\<And>x. x \<in> set xs \<Longrightarrow> f x s = s) \<Longrightarrow> fold f xs s = s"
  by (induction xs) simp_all

lemma for_yx_skip:
  assumes "\<And>y x. y0 \<le> y \<Longrightarrow> y < y1 \<Longrightarrow> x0 \<le> x \<Longrightarrow> x < x1 \<Longrightarrow> body y x s = s"
  shows "for_yx y0 y1 x0 x1 body s = s"
  unfolding for_yx_def
  by (rule fold_skip, rule fold_skip) (use assms in auto)

lemma estimateDimensions_body_skip:
  "\<not> subject data ((y * width + x) * 4) \<Longrightarrow> estimateDimensions_body data width y x s = s"
  by (cases s) (auto simp: estimateDimensions_body_def subject_def split: option.splits)

lemma countBlackSpots_body_skip:
  "\<not> subject data i \<Longrightarrow> countBlackSpots_body data i s = s"
  by (cases s) (auto simp: countBlackSpots_body_def subject_def split: option.splits)

lemma analyzeSurfaceTexture_body_skip:
  "\<not> subject data ((y * 224 + x) * 4) \<Longrightarrow> analyzeSurfaceTexture_body data y x s = s"
  by (cases s) (auto simp: analyzeSurfaceTexture_body_def subject_def split: option.splits)

lemma analyzeSkinCondition_body_skip:
  "\<not> subject data i \<Longrightarrow> analyzeSkinCondition_body data i s = s"
  by (cases s) (auto simp: analyzeSkinCondition_body_def subject_def split: option.splits)

lemma detectBruises_body_skip:
  "\<not> subject data i \<Longrightarrow> detectBruises_body data i s = s"
  by (cases s) (auto simp: detectBruises_body_def subject_def split: option.splits)

lemma detectCuts_body_skip:
  "\<not> subject data ((y * 224 + x) * 4) \<Longrightarrow> detectCuts_body data y x s = s"
  by (cases s) (auto simp: detectCuts_body_def subject_def split: option.splits)

lemma detectLesions_body_skip:
  "\<not> subject data i \<Longrightarrow> detectLesions_body data i s = s"
  by (cases s) (auto simp: detectLesions_body_def subject_def split: option.splits)

lemma analyzeColor_body_skip:
  "\<not> subject data i \<Longrightarrow> analyzeColor_body data i s = s"
  by (cases s) (auto simp: analyzeColor_body_def subject_def split: option.splits)

section \<open>The all-black raster\<close>

lemma px_black: "px black_raster i = (if i + 2 < 200704 then Some (0, 0, 0) else None)"
  by (simp add: px_def black_raster_def)

lemma not_onion_black: "\<not> isOnionPixel 0 0 0 False"
  by (simp add: isOnionPixel_def)

lemma subject_black: "\<not> subject black_raster i"
  by (simp add: subject_def px_black not_onion_black)

lemma length_step4: "length (step4 n) = (n + 3) div 4"
  by (simp add: step4_def)

lemma detectSprouting_fold:
  "fold (detectSprouting_body data) xs (gp, tp)
     = (gp + length (filter (green_pixel data) xs), tp + length xs)"
proof (induction xs arbitrary: gp tp)
  case Nil
  then show ?case by simp
next
  case (Cons i xs)
  have "detectSprouting_body data i (gp, tp)
          = (if green_pixel data i then gp + 1 else gp, tp + 1)"
    by (auto simp: detectSprouting_body_def green_pixel_def split: option.splits)
  then show ?case by (simp add: Cons.IH)
qed

lemma black_dims_loop:
  "for_yx 0 h 0 w (estimateDimensions_body black_raster w0) s = s"
  by (rule for_yx_skip) (simp add: estimateDimensions_body_skip subject_black)

lemma black_countBlackSpots: "countBlackSpots black_raster = 0"
  by (simp add: countBlackSpots_def fold_skip countBlackSpots_body_skip subject_black)

lemma black_analyzeSurfaceTexture: "analyzeSurfaceTexture black_raster = 1"
  by (simp add: analyzeSurfaceTexture_def for_yx_skip analyzeSurfaceTexture_body_skip subject_black)

lemma black_analyzeSkinCondition: "analyzeSkinCondition black_raster = 3"
  by (simp add: analyzeSkinCondition_def fold_skip analyzeSkinCondition_body_skip subject_black)

lemma black_detectBruises: "detectBruises black_raster = 0"
  by (simp add: detectBruises_def fold_skip detectBruises_body_skip subject_black)

lemma black_detectCuts: "detectCuts black_raster = 0"
  by (simp add: detectCuts_def for_yx_skip detectCuts_body_skip subject_black)

lemma black_detectLesions: "detectLesions black_raster = 0"
  by (simp add: detectLesions_def fold_skip detectLesions_body_skip subject_black)

lemma black_analyzeColor:
  "analyzeColor black_raster = \<lparr> avg_brightness = 0, avg_saturation = 0 \<rparr>"
  by (simp add: analyzeColor_def fold_skip analyzeColor_body_skip subject_black)

lemma black_detectSprouting: "detectSprouting black_raster = 0"
proof -
  have "\<not> green_pixel black_raster i" for i
    by (simp add: green_pixel_def px_black)
  then have "filter (green_pixel black_raster) xs = []" for xs
    by (simp add: filter_empty_conv)
  then show ?thesis by (simp add: detectSprouting_def detectSprouting_fold)
qed


lemma black_dims:
  "estimateDimensions black_raster 224 224
     = \<lparr> length_mm = Fin 75, width_mm = Fin 75, height_mm = Fin 75, diameter_mm = Fin 75,
         size_class = ''Large'' \<rparr>"
  by (simp add: estimateDimensions_def black_dims_loop classifySize_def math_round_def)

lemma black_extractFeatures: "fst (extractFeatures this black_raster) = black_features"
  by (simp add: extractFeatures_def Let_def black_features_def black_dims
      black_countBlackSpots black_analyzeSurfaceTexture black_analyzeSkinCondition
      black_detectBruises black_detectCuts black_detectLesions black_detectSprouting
      black_analyzeColor)

text \<open>
  C1 (as the code has it).  On the all-black 224 by 224 raster the engine finds no
  subject pixel and returns \<open>black_spots_count = 0\<close>, \<open>skin_condition_score = 3\<close>, no
  bruises, cuts or lesions, \<open>visible_damage_flag = 0\<close>, colour statistics 0 and 0 and
  \<open>sprouting_detected = 0\<close>.  The default skin score 3 costs \<open>(3 - 1) * 4 = 8\<close> days:
  the shelf life is 22 days and the grade is B.
\<close>

theorem all_black_raster:
  "subject_pixels black_raster = []
   \<and> black_spots_count (fst (extractFeatures this black_raster)) = 0
   \<and> skin_condition_score (fst (extractFeatures this black_raster)) = 3
   \<and> has_bruises (fst (extractFeatures this black_raster)) = 0
   \<and> has_cuts (fst (extractFeatures this black_raster)) = 0
   \<and> has_lesions (fst (extractFeatures this black_raster)) = 0
   \<and> visible_damage_flag (fst (extractFeatures this black_raster)) = 0
   \<and> color_analysis (fst (extractFeatures this black_raster))
       = \<lparr> avg_brightness = 0, avg_saturation = 0 \<rparr>
   \<and> sprouting_detected (fst (extractFeatures this black_raster)) = 0
   \<and> calculateShelfLife (fst (extractFeatures this black_raster)) = 22
   \<and> getQualityGrade (calculateShelfLife (fst (extractFeatures this black_raster))) = ''B''"
proof -
  have none: "subject_pixels black_raster = []"
    by (simp add: subject_pixels_def filter_empty_conv subject_black)
  have days: "calculateShelfLife black_features = 22"
    by (simp add: black_features_def calculateShelfLife_def Let_def math_round_def)
  have grade: "getQualityGrade 22 = ''B''"
    by (simp add: getQualityGrade_def)
  show ?thesis
    unfolding black_extractFeatures days grade
    by (simp add: none black_features_def)
qed

theorem all_black_raster_witness:
  "visible_damage_flag (fst (extractFeatures constructor black_raster)) = 0
   \<and> calculateShelfLife (fst (extractFeatures constructor black_raster)) = 22
   \<and> getQualityGrade (calculateShelfLife (fst (extractFeatures constructor black_raster)))
       = ''B''"
  using all_black_raster [of constructor] by blast

text \<open>The shelf life of the all-black raster is not 30 days and its grade is not A.\<close>

theorem all_black_raster_counterexample:
  "calculateShelfLife (fst (extractFeatures constructor black_raster)) \<noteq> 30
   \<and> getQualityGrade (calculateShelfLife (fst (extractFeatures constructor black_raster)))
       \<noteq> ''A''"
proof -
  have days: "calculateShelfLife black_features = 22"
    by (simp add: black_features_def calculateShelfLife_def Let_def math_round_def)
  show ?thesis
    unfolding black_extractFeatures days
    by (simp add: getQualityGrade_def)
qed

section \<open>Rasters without subject pixels\<close>

lemma no_subject_pixels:
  assumes "subject_pixels data = []"
  shows "\<not> subject data (k * 4)"
proof (cases "k * 4 < length data")
  case True
  then have "k < (length data + 3) div 4" by simp
  then have "4 * k \<in> set (step4 (length data))"
    by (simp add: step4_def)
  with assms show ?thesis
    by (simp add: subject_pixels_def filter_empty_conv mult.commute)
next
  case False
  then show ?thesis by (simp add: subject_def px_def)
qed

lemma black_no_subject: "subject_pixels black_raster = []"
  by (simp add: subject_pixels_def filter_empty_conv subject_black)

text \<open>
  C2.  When a raster has no subject pixel the bounding box keeps its initial values
  \<open>minX = width\<close>, \<open>maxX = 0\<close>, \<open>minY = height\<close>, \<open>maxY = 0\<close>, so
  \<open>pixelWidth = pixelHeight = -224\<close>.  The divisor is not zero, the scale factor is
  \<open>75 / -224\<close>, and \<open>estimateDimensions\<close> returns 75 for the four dimensions and the
  size class Large, where the specification asks for 0 and Small.
\<close>

theorem estimateDimensions_no_subject:
  assumes "subject_pixels data = []"
  shows "estimateDimensions data 224 224
     = \<lparr> length_mm = Fin 75, width_mm = Fin 75, height_mm = Fin 75, diameter_mm = Fin 75,
         size_class = ''Large'' \<rparr>"
proof -
  have "for_yx 0 224 0 224 (estimateDimensions_body data 224) s = s" for s
    by (rule for_yx_skip, rule estimateDimensions_body_skip, rule no_subject_pixels [OF assms])
  then show ?thesis
    by (simp add: estimateDimensions_def classifySize_def math_round_def)
qed

theorem estimateDimensions_no_subject_witness:
  "subject_pixels black_raster = []
   \<and> length_mm (estimateDimensions black_raster 224 224) = Fin 75
   \<and> width_mm (estimateDimensions black_raster 224 224) = Fin 75
   \<and> height_mm (estimateDimensions black_raster 224 224) = Fin 75
   \<and> diameter_mm (estimateDimensions black_raster 224 224) = Fin 75
   \<and> size_class (estimateDimensions black_raster 224 224) = ''Large''"
  using estimateDimensions_no_subject [OF black_no_subject] black_no_subject by simp

section \<open>A raster with one subject pixel\<close>

lemma subject_one_pixel: "4 \<le> i \<Longrightarrow> \<not> subject one_pixel_raster i"
  by (simp add: subject_def px_def one_pixel_raster_def nth_append not_onion_black)

lemma one_pixel_loop:
  "for_yx 0 224 0 224 (estimateDimensions_body one_pixel_raster 224) (224, 0, 224, 0, 0)
     = (0, 0, 0, 0, 1)"
proof -
  let ?body = "estimateDimensions_body one_pixel_raster 224"
  have e: "[0..<224] = 0 # [1..<224]"
    by (simp add: upt_conv_Cons)
  have first: "?body 0 0 (224, 0, 224, 0, 0) = (0, 0, 0, 0, 1)"
    by (simp add: estimateDimensions_body_def px_def one_pixel_raster_def isOnionPixel_def)
  have row: "fold (?body 0) [1..<224] s = s" for s
    by (rule fold_skip) (simp add: estimateDimensions_body_skip subject_one_pixel)
  have rows: "fold (\<lambda>y. fold (?body y) [0..<224]) [1..<224] s = s" for s
    by (rule fold_skip, rule fold_skip) (simp add: estimateDimensions_body_skip subject_one_pixel)
  have "for_yx 0 224 0 224 ?body (224, 0, 224, 0, 0)
          = fold (\<lambda>y. fold (?body y) [0..<224]) [1..<224]
              (fold (?body 0) [1..<224] (?body 0 0 (224, 0, 224, 0, 0)))"
    unfolding for_yx_def by (subst e, simp, subst e, simp)
  then show ?thesis by (simp only: rows row first)
qed

lemma one_pixel_dims:
  "estimateDimensions one_pixel_raster 224 224
     = \<lparr> length_mm = NaN, width_mm = NaN, height_mm = NaN, diameter_mm = NaN,
         size_class = ''Extra Large'' \<rparr>"
  by (simp add: estimateDimensions_def one_pixel_loop classifySize_def)

lemma step4_Cons: "0 < n \<Longrightarrow> step4 n = 0 # map (\<lambda>k. 4 * k) [1..<(n + 3) div 4]"
proof -
  assume "0 < n"
  then have "0 < (n + 3) div 4" by simp
  then have "[0..<(n + 3) div 4] = 0 # [1..<(n + 3) div 4]"
    by (simp add: upt_conv_Cons)
  then show ?thesis by (simp add: step4_def)
qed

lemma step4_tail_ge: "i \<in> set (map (\<lambda>k. 4 * k) [1..<m]) \<Longrightarrow> 4 \<le> i"
  by auto

lemma one_pixel_subjects: "subject_pixels one_pixel_raster = [0]"
proof -
  have first: "subject one_pixel_raster 0"
    by (simp add: subject_def px_def one_pixel_raster_def isOnionPixel_def)
  have rest: "filter (subject one_pixel_raster) (map (\<lambda>k. 4 * k) [1..<m]) = []" for m
    unfolding filter_empty_conv using step4_tail_ge subject_one_pixel by blast
  have "0 < length one_pixel_raster"
    by (simp add: one_pixel_raster_def)
  then show ?thesis
    unfolding subject_pixels_def by (simp only: step4_Cons filter.simps first rest if_True)
qed

text \<open>
  C6.  With exactly one subject pixel the bounding box has width and height 0:
  \<open>75 / 0\<close> is Infinity, \<open>0 * Infinity\<close> is NaN, and \<open>estimateDimensions\<close> returns NaN
  for the four dimensions (and the size class Extra Large, every comparison with NaN
  being false), not finite numbers.
\<close>

theorem estimateDimensions_one_pixel:
  "subject_pixels one_pixel_raster = [0]
   \<and> length_mm (estimateDimensions one_pixel_raster 224 224) = NaN
   \<and> width_mm (estimateDimensions one_pixel_raster 224 224) = NaN
   \<and> height_mm (estimateDimensions one_pixel_raster 224 224) = NaN
   \<and> diameter_mm (estimateDimensions one_pixel_raster 224 224) = NaN
   \<and> size_class (estimateDimensions one_pixel_raster 224 224) = ''Extra Large''"
  by (simp add: one_pixel_dims one_pixel_subjects)

section \<open>Black spots\<close>

lemma uint_byte: "uint (w :: 8 word) \<le> 255"
  using uint_lt2p [of w] by simp

lemma isOnionPixel_spec:
  assumes "r \<le> 255" "g \<le> 255" "b \<le> 255"
  shows "isOnionPixel r g b False = spec_is_subject (r, g, b)"
  using assms by (auto simp: isOnionPixel_def spec_is_subject_def)








section \<open>Cuts\<close>

lemma fold_product:
  "fold (\<lambda>y. fold (f y) xs) ys s = fold (\<lambda>(y, x). f y x) (List.product ys xs) s"
proof (induction ys arbitrary: s)
  case Nil
  then show ?case by simp
next
  case (Cons y ys)
  have "fold (\<lambda>(y, x). f y x) (map (Pair y) xs) s = fold (f y) xs s"
    by (simp add: fold_map comp_def)
  then show ?case by (simp add: Cons.IH)
qed

lemma px_pixel_at:
  assumes "length data = 224 * 224 * 4" and "y < 224" and "x < 224"
  shows "px data ((y * 224 + x) * 4) = Some (spec_pixel_at data y x)"
proof -
  have "y * 224 + x < 224 * 224"
    using assms(2,3) by simp
  then have "(y * 224 + x) * 4 + 2 < length data"
    using assms(1) by simp
  then show ?thesis
    by (simp add: px_def spec_pixel_at_def algebra_simps)
qed

lemma detectCuts_body_pair:
  assumes "px data ((y * 224 + x) * 4) = Some p" and "px data ((y * 224 + (x + 1)) * 4) = Some q"
  shows "detectCuts_body data y x (s, t)
     = (if spec_is_subject p \<and> spec_is_subject q
        then (if \<bar>fl (spec_brightness p - spec_brightness q)\<bar> > 60 then s + 1 else s, t + 1)
        else (s, t))"
proof -
  obtain r g b where p: "p = (r, g, b)" by (cases p)
  obtain rr rg rb where q: "q = (rr, rg, rb)" by (cases q)
  have pb: "r \<le> 255" "g \<le> 255" "b \<le> 255"
    using assms(1) unfolding p px_def by (auto simp: uint_byte split: if_splits)
  have qb: "rr \<le> 255" "rg \<le> 255" "rb \<le> 255"
    using assms(2) unfolding q px_def by (auto simp: uint_byte split: if_splits)
  show ?thesis
    unfolding detectCuts_body_def assms p q
    by (simp add: isOnionPixel_spec [OF pb] isOnionPixel_spec [OF qb] spec_brightness_def
        brightness_def)
qed

lemma detectCuts_body_eq:
  assumes "length data = 224 * 224 * 4" and "y < 224" and "x < 223"
  shows "detectCuts_body data y x (s, t)
     = (if spec_cut_pair data (y, x)
        then (if spec_sharp_pair data (y, x) then s + 1 else s, t + 1)
        else (s, t))"
proof -
  have a: "px data ((y * 224 + x) * 4) = Some (spec_pixel_at data y x)"
    using assms by (intro px_pixel_at) simp_all
  have b: "px data ((y * 224 + (x + 1)) * 4) = Some (spec_pixel_at data y (x + 1))"
    using assms by (intro px_pixel_at) simp_all
  show ?thesis
    unfolding detectCuts_body_pair [OF a b] spec_cut_pair_def spec_sharp_pair_def
    by simp
qed

lemma detectCuts_fold:
  assumes "length data = 224 * 224 * 4" and "\<forall>(y, x) \<in> set cs. y < 224 \<and> x < 223"
  shows "fold (\<lambda>(y, x). detectCuts_body data y x) cs (s, t)
     = (s + length (filter (spec_sharp_pair data) (filter (spec_cut_pair data) cs)),
        t + length (filter (spec_cut_pair data) cs))"
  using assms(2)
proof (induction cs arbitrary: s t)
  case Nil
  then show ?case by simp
next
  case (Cons c cs)
  obtain y x where c: "c = (y, x)" by (cases c)
  have "y < 224" "x < 223" using Cons.prems c by auto
  note step = detectCuts_body_eq [OF assms(1) this]
  show ?case using Cons by (simp add: c step)
qed

lemma product_Cons_Cons:
  "List.product (y # ys) (x # xs) = (y, x) # map (Pair y) xs @ List.product ys (x # xs)"
  by simp

lemma not_subject_black: "\<not> spec_is_subject (0, 0, 0)"
  by (simp add: spec_is_subject_def)

lemma ratio_one: "fl (of_nat 1 / of_nat 1) > fl (3 / 100)"
  by code_simp

text \<open>
  C7 (as the code has it).  For every 224 by 224 raster, \<open>detectCuts\<close> returns 1
  exactly when, over the interior pixels (rows and columns 1 to 222) that are subject
  pixels with a subject right-hand neighbour, more than 3 percent of the pairs differ in
  brightness by more than 60, the brightnesses and their difference being computed in
  doubles; it returns 0 when there is no such pair.
\<close>

theorem detectCuts_interior:
  assumes "length data = 224 * 224 * 4"
  shows "detectCuts data = (if spec_has_cuts interior_pixels data then 1 else 0)"
proof -
  have inside: "\<forall>(y, x) \<in> set interior_pixels. y < 224 \<and> x < 223"
    by (auto simp: interior_pixels_def)
  have loop: "for_yx 1 (224 - 1) 1 (224 - 1) (detectCuts_body data) (0, 0)
     = (length (filter (spec_sharp_pair data) (filter (spec_cut_pair data) interior_pixels)),
        length (filter (spec_cut_pair data) interior_pixels))"
    unfolding for_yx_def fold_product
    using detectCuts_fold [OF assms inside, of 0 0]
    by (simp add: interior_pixels_def)
  show ?thesis
    unfolding detectCuts_def loop spec_has_cuts_def Let_def
    by simp
qed

lemma length_edge_raster: "length edge_raster = 224 * 224 * 4"
  by (simp add: edge_raster_def)

lemma edge_raster_black:
  assumes "y < 224" and "x < 224" and "227 \<le> 224 * y + x"
  shows "\<not> spec_is_subject (spec_pixel_at edge_raster y x)"
proof -
  have "224 * y + x < 224 * 224" using assms(1,2) by simp
  then have "4 * (224 * y + x) + 2 < 200704" by simp
  moreover have "908 \<le> 4 * (224 * y + x)" using assms(3) by simp
  ultimately have "spec_pixel_at edge_raster y x = (0, 0, 0)"
    by (simp add: spec_pixel_at_def edge_raster_def nth_append)
  then show ?thesis by (simp add: not_subject_black)
qed

lemma edge_raster_pairs: "filter (spec_cut_pair edge_raster) interior_pixels = [(1, 1)]"
proof -
  have e: "[1..<224 - 1] = 1 # [Suc 1..<223]"
    by (simp add: upt_conv_Cons del: upt_rec_numeral)
  have p0: "spec_pixel_at edge_raster 1 1 = (80, 0, 75)"
    and p1: "spec_pixel_at edge_raster 1 2 = (80, 85, 170)"
    by (simp_all add: spec_pixel_at_def edge_raster_def nth_append)
  have first: "spec_cut_pair edge_raster (1, 1)"
    by (simp add: spec_cut_pair_def p0 p1 spec_is_subject_def del: One_nat_def)
  have "\<not> spec_cut_pair edge_raster (1, x)" if "x \<in> set [Suc 1..<223]" for x
    using that edge_raster_black [of 1 "x + 1"]
    by (simp add: spec_cut_pair_def del: upt_rec_numeral)
  then have row: "filter (spec_cut_pair edge_raster) (map (Pair 1) [Suc 1..<223]) = []"
    by (auto simp: filter_empty_conv simp del: upt_rec_numeral)
  have "\<not> spec_cut_pair edge_raster (y, x)"
    if "y \<in> set [Suc 1..<223]" "x \<in> set (1 # [Suc 1..<223])" for y x
    using that edge_raster_black [of y x]
    by (auto simp: spec_cut_pair_def simp del: upt_rec_numeral)
  then have rows:
    "filter (spec_cut_pair edge_raster) (List.product [Suc 1..<223] (1 # [Suc 1..<223])) = []"
    by (auto simp: filter_empty_conv simp del: upt_rec_numeral)
  show ?thesis
    unfolding interior_pixels_def e product_Cons_Cons
    by (simp only: filter.simps filter_append first row rows if_True append_Nil)
qed

theorem detectCuts_interior_witness:
  "length edge_raster = 224 * 224 * 4 \<and> detectCuts edge_raster = 1"
proof -
  have p0: "spec_pixel_at edge_raster 1 1 = (80, 0, 75)"
    and p1: "spec_pixel_at edge_raster 1 2 = (80, 85, 170)"
    by (simp_all add: spec_pixel_at_def edge_raster_def nth_append)
  have "\<bar>fl (spec_brightness (80, 0, 75) - spec_brightness (80, 85, 170))\<bar> > 60"
    by code_simp
  then have sharp: "spec_sharp_pair edge_raster (1, 1)"
    by (simp add: spec_sharp_pair_def p0 p1 del: One_nat_def)
  have cuts: "spec_has_cuts interior_pixels edge_raster"
    unfolding spec_has_cuts_def edge_raster_pairs
    using sharp ratio_one by simp
  from detectCuts_interior [OF length_edge_raster] cuts length_edge_raster
  show ?thesis by simp
qed

lemma length_cuts_raster: "length cuts_raster = 224 * 224 * 4"
  by (simp add: cuts_raster_def)

lemma cuts_raster_nth: "8 \<le> i \<Longrightarrow> i < 200704 \<Longrightarrow> cuts_raster ! i = 0"
  by (simp add: cuts_raster_def nth_append)

lemma cuts_raster_black:
  assumes "y < 224" and "x < 224" and "2 \<le> 224 * y + x"
  shows "\<not> spec_is_subject (spec_pixel_at cuts_raster y x)"
proof -
  have "224 * y + x < 224 * 224" using assms(1,2) by simp
  then have "4 * (224 * y + x) + 2 < 200704" by simp
  moreover have "8 \<le> 4 * (224 * y + x)" using assms(3) by simp
  ultimately have "spec_pixel_at cuts_raster y x = (0, 0, 0)"
    unfolding spec_pixel_at_def by (simp only: cuts_raster_nth) simp
  then show ?thesis by (simp add: not_subject_black)
qed

lemma cuts_raster_pairs:
  "filter (spec_cut_pair cuts_raster) pixels_with_right_neighbour = [(0, 0)]"
proof -
  have ey: "[0..<224] = 0 # [1..<224]" and ex: "[0..<224 - 1] = 0 # [1..<223]"
    by (simp_all add: upt_conv_Cons)
  have p0: "spec_pixel_at cuts_raster 0 0 = (255, 255, 255)"
    and p1: "spec_pixel_at cuts_raster 0 1 = (80, 50, 20)"
    by (simp_all add: spec_pixel_at_def cuts_raster_def)
  have first: "spec_cut_pair cuts_raster (0, 0)"
    by (simp add: spec_cut_pair_def p0 p1 spec_is_subject_def del: One_nat_def)
  have "\<not> spec_cut_pair cuts_raster (0, x)" if "x \<in> set [1..<223]" for x
    using that cuts_raster_black [of 0 "x + 1"] by (simp add: spec_cut_pair_def)
  then have row: "filter (spec_cut_pair cuts_raster) (map (Pair 0) [1..<223]) = []"
    by (auto simp: filter_empty_conv)
  have "\<not> spec_cut_pair cuts_raster (y, x)" if "y \<in> set [1..<224]" "x < 224" for y x
    using that cuts_raster_black [of y x] by (simp add: spec_cut_pair_def)
  then have rows: "filter (spec_cut_pair cuts_raster) (List.product [1..<224] (0 # [1..<223])) = []"
    by (auto simp: filter_empty_conv)
  show ?thesis
    unfolding pixels_with_right_neighbour_def ey ex product_Cons_Cons
    by (simp only: filter.simps filter_append first row rows if_True append_Nil)
qed

lemma subject_cuts_raster: "8 \<le> i \<Longrightarrow> \<not> subject cuts_raster i"
  by (simp add: subject_def px_def cuts_raster_def nth_append not_onion_black)

lemma detectCuts_cuts_raster: "detectCuts cuts_raster = 0"
proof -
  have "for_yx 1 (224 - 1) 1 (224 - 1) (detectCuts_body cuts_raster) (0, 0) = (0, 0)"
    by (rule for_yx_skip) (simp add: detectCuts_body_skip subject_cuts_raster)
  then show ?thesis by (simp add: detectCuts_def)
qed

text \<open>
  The only pair of \<open>cuts_raster\<close> lies in row 0 and is sharp, so the rule taken over
  every pixel with a right-hand neighbour holds; the loops of \<open>detectCuts\<close> start at
  row 1 and column 1 and return 0.
\<close>

theorem detectCuts_border_counterexample:
  "length cuts_raster = 224 * 224 * 4
   \<and> spec_has_cuts pixels_with_right_neighbour cuts_raster
   \<and> detectCuts cuts_raster = 0"
proof -
  have p0: "spec_pixel_at cuts_raster 0 0 = (255, 255, 255)"
    and p1: "spec_pixel_at cuts_raster 0 1 = (80, 50, 20)"
    by (simp_all add: spec_pixel_at_def cuts_raster_def)
  have "\<bar>fl (spec_brightness (255, 255, 255) - spec_brightness (80, 50, 20))\<bar> > 60"
    by code_simp
  then have sharp: "spec_sharp_pair cuts_raster (0, 0)"
    by (simp add: spec_sharp_pair_def p0 p1 del: One_nat_def)
  have "spec_has_cuts pixels_with_right_neighbour cuts_raster"
    unfolding spec_has_cuts_def cuts_raster_pairs
    using sharp ratio_one by simp
  then show ?thesis
    by (simp add: length_cuts_raster detectCuts_cuts_raster)
qed

section \<open>Independence of the alpha channel and of the extractor's state\<close>

lemma same_rgb_nth:
  assumes "same_rgb d1 d2" and "i < length d1" and "i mod 4 \<noteq> 3"
  shows "d1 ! i = d2 ! i"
  using assms by (auto simp: same_rgb_def list_all_iff)

lemma same_rgb_px:
  assumes "same_rgb d1 d2"
  shows "px d1 (k * 4) = px d2 (k * 4)"
proof (cases "k * 4 + 2 < length d1")
  case True
  have m: "(k * 4) mod 4 \<noteq> 3" "(k * 4 + 1) mod 4 \<noteq> 3" "(k * 4 + 2) mod 4 \<noteq> 3"
    by presburger+
  have "d1 ! (k * 4) = d2 ! (k * 4)" "d1 ! (k * 4 + 1) = d2 ! (k * 4 + 1)"
    "d1 ! (k * 4 + 2) = d2 ! (k * 4 + 2)"
    using True m by (auto intro!: same_rgb_nth [OF assms])
  moreover have "length d2 = length d1"
    using assms by (simp add: same_rgb_def)
  ultimately show ?thesis by (simp add: px_def)
next
  case False
  moreover have "length d2 = length d1"
    using assms by (simp add: same_rgb_def)
  ultimately show ?thesis by (simp add: px_def)
qed

lemma same_rgb_px': "same_rgb d1 d2 \<Longrightarrow> px d1 (4 * k) = px d2 (4 * k)"
  using same_rgb_px [of d1 d2 k] by (simp add: mult.commute)

lemma in_step4: "i \<in> set (step4 n) \<Longrightarrow> \<exists>k. i = 4 * k"
  by (auto simp: step4_def)

lemma same_rgb_fold:
  assumes "same_rgb d1 d2"
    and "\<And>k. body d1 (4 * k) = body d2 (4 * k)"
  shows "fold (body d1) (step4 (length d1)) s = fold (body d2) (step4 (length d2)) s"
proof -
  have len: "length d2 = length d1"
    using assms(1) by (simp add: same_rgb_def)
  show ?thesis
    unfolding len
    by (rule fold_cong) (use assms(2) in_step4 in \<open>auto\<close>)
qed

lemma same_rgb_estimateDimensions:
  assumes "same_rgb d1 d2"
  shows "estimateDimensions d1 w h = estimateDimensions d2 w h"
proof -
  have "estimateDimensions_body d1 w = estimateDimensions_body d2 w"
    unfolding estimateDimensions_body_def same_rgb_px [OF assms] by (rule refl)
  then show ?thesis by (simp add: estimateDimensions_def)
qed

lemma same_rgb_countBlackSpots:
  assumes "same_rgb d1 d2"
  shows "countBlackSpots d1 = countBlackSpots d2"
  unfolding countBlackSpots_def
  by (subst same_rgb_fold [OF assms]) (simp_all add: countBlackSpots_body_def same_rgb_px' [OF assms])

lemma same_rgb_analyzeSurfaceTexture:
  assumes "same_rgb d1 d2"
  shows "analyzeSurfaceTexture d1 = analyzeSurfaceTexture d2"
proof -
  have "analyzeSurfaceTexture_body d1 = analyzeSurfaceTexture_body d2"
    unfolding analyzeSurfaceTexture_body_def brightness_at_def same_rgb_px [OF assms]
    by (rule refl)
  then show ?thesis by (simp add: analyzeSurfaceTexture_def)
qed

lemma same_rgb_analyzeSkinCondition:
  assumes "same_rgb d1 d2"
  shows "analyzeSkinCondition d1 = analyzeSkinCondition d2"
  unfolding analyzeSkinCondition_def
  by (subst same_rgb_fold [OF assms])
    (simp_all add: analyzeSkinCondition_body_def same_rgb_px' [OF assms])

lemma same_rgb_detectBruises:
  assumes "same_rgb d1 d2"
  shows "detectBruises d1 = detectBruises d2"
  unfolding detectBruises_def
  by (subst same_rgb_fold [OF assms]) (simp_all add: detectBruises_body_def same_rgb_px' [OF assms])

lemma same_rgb_detectCuts:
  assumes "same_rgb d1 d2"
  shows "detectCuts d1 = detectCuts d2"
proof -
  have "detectCuts_body d1 = detectCuts_body d2"
    unfolding detectCuts_body_def same_rgb_px [OF assms] by (rule refl)
  then show ?thesis by (simp add: detectCuts_def)
qed

lemma same_rgb_detectLesions:
  assumes "same_rgb d1 d2"
  shows "detectLesions d1 = detectLesions d2"
  unfolding detectLesions_def
  by (subst same_rgb_fold [OF assms]) (simp_all add: detectLesions_body_def same_rgb_px' [OF assms])

lemma same_rgb_analyzeColor:
  assumes "same_rgb d1 d2"
  shows "analyzeColor d1 = analyzeColor d2"
  unfolding analyzeColor_def
  by (subst same_rgb_fold [OF assms]) (simp_all add: analyzeColor_body_def same_rgb_px' [OF assms])

lemma same_rgb_detectSprouting:
  assumes "same_rgb d1 d2"
  shows "detectSprouting d1 = detectSprouting d2"
  unfolding detectSprouting_def
  by (subst same_rgb_fold [OF assms])
    (simp_all add: detectSprouting_body_def same_rgb_px' [OF assms])

text \<open>
  C10.  Two rasters of the same length that agree on every red, green and blue byte, and
  differ in any way in their alpha bytes, give the same feature record: every analyzer
  reads the bytes at \<open>idx\<close>, \<open>idx + 1\<close> and \<open>idx + 2\<close> of a pixel only.
\<close>

theorem extractFeatures_ignores_alpha:
  assumes "same_rgb d1 d2"
  shows "fst (extractFeatures this d1) = fst (extractFeatures this d2)"
  unfolding extractFeatures_def Let_def fst_conv
    same_rgb_estimateDimensions [OF assms] same_rgb_countBlackSpots [OF assms]
    same_rgb_analyzeSurfaceTexture [OF assms] same_rgb_analyzeSkinCondition [OF assms]
    same_rgb_detectBruises [OF assms] same_rgb_detectCuts [OF assms]
    same_rgb_detectLesions [OF assms] same_rgb_analyzeColor [OF assms]
    same_rgb_detectSprouting [OF assms]
  by (rule refl)

lemma same_rgb_black: "same_rgb black_raster (black_raster[3 := 255])"
proof -
  have "i mod 4 = 3 \<or> black_raster ! i = black_raster[3 := 255] ! i" for i
    by (cases "i = 3") simp_all
  then show ?thesis by (simp add: same_rgb_def list_all_iff)
qed

theorem extractFeatures_ignores_alpha_witness:
  "same_rgb black_raster (black_raster[3 := 255])
   \<and> black_raster ! 3 \<noteq> black_raster[3 := 255] ! 3
   \<and> fst (extractFeatures constructor black_raster)
       = fst (extractFeatures constructor (black_raster[3 := 255]))"
proof -
  have "black_raster ! 3 \<noteq> black_raster[3 := 255] ! 3"
    by (simp add: black_raster_def)
  with extractFeatures_ignores_alpha [OF same_rgb_black, of constructor] same_rgb_black
  show ?thesis by simp
qed

text \<open>
  C9.  The record \<open>extractFeatures\<close> returns does not depend on the state of the
  extractor object.  A second call with the same raster, made on the object as the first
  call left it, returns the same record, and the shelf life computed from it is the
  same.  The model has no clock and no random source because the analyzers and
  \<open>calculateShelfLife\<close> read none.
\<close>

theorem extractFeatures_idempotent:
  "fst (extractFeatures this' data) = fst (extractFeatures this data)
   \<and> fst (extractFeatures (snd (extractFeatures this data)) data) = fst (extractFeatures this data)
   \<and> calculateShelfLife (fst (extractFeatures (snd (extractFeatures this data)) data))
       = calculateShelfLife (fst (extractFeatures this data))"
proof -
  have "fst (extractFeatures a data) = fst (extractFeatures b data)" for a b
    by (simp add: extractFeatures_def Let_def)
  then show ?thesis by metis
qed

theorem extractFeatures_idempotent_witness:
  "fst (extractFeatures \<lparr> this_features = Some sample_features \<rparr> black_raster)
     = fst (extractFeatures constructor black_raster)
   \<and> fst (extractFeatures (snd (extractFeatures constructor black_raster)) black_raster)
       = fst (extractFeatures constructor black_raster)"
  using extractFeatures_idempotent
    [of "\<lparr> this_features = Some sample_features \<rparr>" black_raster constructor]
  by simp

section \<open>The flood fill\<close>

text \<open>
  What the flood fill does count: the pixels it adds to the visited set, each of them in
  the grid, not visited before and with a brightness that is not \<open>>= 60\<close>.
\<close>

lemma card_new_insert:
  assumes "insert p visited \<subseteq> v" and "p \<notin> visited" and "finite (v - visited)"
  shows "card (v - visited) = Suc (card (v - insert p visited))"
proof -
  have "v - visited = insert p (v - insert p visited)"
    using assms by auto
  moreover have "p \<notin> v - insert p visited" by simp
  moreover have "finite (v - insert p visited)"
    using assms(3) by (rule rev_finite_subset) auto
  ultimately show ?thesis by (metis card_insert_disjoint)
qed

lemma floodFill_loop_counts:
  "floodFill_loop data w h stack visited count = (c, v) \<Longrightarrow>
     visited \<subseteq> v \<and> v - visited \<subseteq> in_grid w h
     \<and> (\<forall>p \<in> v - visited. region_pixel data w p)
     \<and> c = count + card (v - visited)"
proof (induction data w h stack visited count rule: floodFill_loop.induct)
  case (1 data w h visited count)
  then show ?case by simp
next
  case (2 data w h x y stack visited count)
  let ?skip = "(x, y) \<in> visited \<or> x < 0 \<or> x \<ge> w \<or> y < 0 \<or> y \<ge> h"
  let ?bright = "case px data (nat ((y * w + x) * 4)) of
                   None \<Rightarrow> False | Some (r, g, b) \<Rightarrow> brightness r g b \<ge> 60"
  note step = floodFill_loop.simps(2) [of data w h x y stack visited count]
  show ?case
  proof (cases ?skip)
    case True
    then have eq: "floodFill_loop data w h stack visited count = (c, v)"
      using "2.prems" unfolding step by (simp del: floodFill_loop.simps)
    show ?thesis by (rule "2.IH"(1) [OF True eq])
  next
    case noskip: False
    show ?thesis
    proof (cases ?bright)
      case True
      then have eq: "floodFill_loop data w h stack visited count = (c, v)"
        using "2.prems" noskip unfolding step by (simp del: floodFill_loop.simps)
      show ?thesis by (rule "2.IH"(2) [OF noskip True eq])
    next
      case nobright: False
      have new: "(x, y) \<notin> visited" and grid: "(x, y) \<in> in_grid w h"
        using noskip by (auto simp: in_grid_def)
      have dark: "region_pixel data w (x, y)"
        using nobright by (auto simp: region_pixel_def split: option.splits)
      have ih: "insert (x, y) visited \<subseteq> v \<and> v - insert (x, y) visited \<subseteq> in_grid w h
                \<and> (\<forall>p \<in> v - insert (x, y) visited. region_pixel data w p)
                \<and> c = (count + 1) + card (v - insert (x, y) visited)"
      proof (cases "count + 1 < 100")
        case True
        then have eq: "floodFill_loop data w h
                     ((x, y - 1) # (x, y + 1) # (x - 1, y) # (x + 1, y) # stack)
                     (insert (x, y) visited) (count + 1) = (c, v)"
          using "2.prems" noskip nobright unfolding step by (simp del: floodFill_loop.simps)
        show ?thesis by (rule "2.IH"(3) [OF noskip nobright True eq])
      next
        case False
        then have eq: "floodFill_loop data w h stack (insert (x, y) visited) (count + 1) = (c, v)"
          using "2.prems" noskip nobright unfolding step by (simp del: floodFill_loop.simps)
        show ?thesis by (rule "2.IH"(4) [OF noskip nobright False eq])
      qed
      from ih have ih1: "insert (x, y) visited \<subseteq> v"
        and ih2: "v - insert (x, y) visited \<subseteq> in_grid w h"
        and ih3: "\<forall>p \<in> v - insert (x, y) visited. region_pixel data w p"
        and ih4: "c = (count + 1) + card (v - insert (x, y) visited)"
        by simp_all
      have split: "v - visited = insert (x, y) (v - insert (x, y) visited)"
        using ih1 new by blast
      have "finite (in_grid w h)" by (simp add: in_grid_def)
      then have fin': "finite (v - insert (x, y) visited)"
        using ih2 by (rule rev_finite_subset)
      have fin: "finite (v - visited)"
        unfolding split using fin' by simp
      have card: "card (v - visited) = Suc (card (v - insert (x, y) visited))"
        by (rule card_new_insert [OF ih1 new fin])
      have p1: "visited \<subseteq> v"
        using ih1 by blast
      have p2: "v - visited \<subseteq> in_grid w h"
        unfolding split using ih2 grid by blast
      have p3: "\<forall>p \<in> v - visited. region_pixel data w p"
        unfolding split using ih3 dark by blast
      have p4: "c = count + card (v - visited)"
        unfolding card ih4 by simp
      show ?thesis
        using p1 p2 p3 p4 by (intro conjI)
    qed
  qed
qed

lemma floodFill_counts:
  assumes "floodFill data startX startY w h visited = (c, v)"
  shows "visited \<subseteq> v \<and> v - visited \<subseteq> in_grid w h
     \<and> (\<forall>p \<in> v - visited. region_pixel data w p)
     \<and> c = card (v - visited)"
  using floodFill_loop_counts [of data w h "[(startX, startY)]" visited 0 c v] assms
  by (simp add: floodFill_def del: floodFill_loop.simps)

text \<open>
  C8.  On the all-black raster, started at the pixel (112, 112) with nothing visited,
  \<open>floodFill\<close> returns 299.  Once 100 pixels are counted it stops pushing neighbours,
  but it goes on popping the coordinates already on the stack and counts each one that
  is dark, in the grid and not yet visited: here the 199 neighbours to the sides of the
  column it walked up.
\<close>

theorem floodFill_exceeds_cap: "fst (floodFill black_raster 112 112 224 224 {}) = 299"
  by (simp add: floodFill_def px_black brightness_def)

end
